theory Spec2Isabelle
  imports Complex_Main "HOL-Library.Word" "HOL-Library.Monad_Syntax"
begin

section \<open>Sampler (src/lib/nsf-api.ts)\<close>

text \<open>
  The sampler talks to the award registry over HTTP and reads
  \<^verbatim>\<open>crypto.getRandomValues\<close>. Both are effects; the model makes them explicit.
  An environment fixes what the outside world answers: \<open>rng k\<close> is the 32-bit value of
  the \<open>k\<close>-th draw, and \<open>registry k url\<close> is what the \<open>k\<close>-th request of the run receives
  when it asks for \<open>url\<close> (so a registry may answer the same URL differently over time).
  The state records how many values were drawn and every URL that was fetched, in order.

  A response is either \<open>Failed\<close> (the fetch threw, the status was not ok, or the body did not
  parse: the source turns each of them into \<^verbatim>\<open>null\<close>) or the JSON envelope with its
  \<^verbatim>\<open>metadata.totalCount\<close> and its \<^verbatim>\<open>award\<close> array. The total count is a count:
  a natural number.
\<close>

record NSFAward =
  awardId :: string
  awardTitle :: string
  abstractText :: "string option"

datatype response = Failed | Json nat "NSFAward list"

datatype status = Active | Completed

record env =
  rng :: "nat \<Rightarrow> 32 word"
  registry :: "nat \<Rightarrow> string \<Rightarrow> response"

record state =
  drawn :: nat
  fetched :: "string list"

definition NSF_API_BASE :: string where
  "NSF_API_BASE = ''https://www.research.gov/awardapi-service/v1''"

definition PRINT_FIELDS :: string where
  "PRINT_FIELDS = ''id,title,abstractText,estimatedTotalAmt,fundsObligatedAmt,awardeeName,awardeeCity,awardeeStateCode,pdPIName,piEmail,startDate,expDate,date,transType,program,dirAbbr,divAbbr,orgLongName,orgLongName2,projectOutComesReport,publicationResearch,activeAwd''"

text \<open>Decimal rendering of a number, as \<^verbatim>\<open>toString\<close> and template strings do.\<close>

definition digitChar :: "nat \<Rightarrow> char" where
  "digitChar d = ''0123456789'' ! d"

function natToString :: "nat \<Rightarrow> string" where
  "natToString n = (if n < 10 then [digitChar n] else natToString (n div 10) @ [digitChar (n mod 10)])"
  by pat_completeness auto
termination
  by (relation "measure (\<lambda>n. n)") auto

definition intToString :: "int \<Rightarrow> string" where
  "intToString i = (if i < 0 then CHR ''-'' # natToString (nat (- i)) else natToString (nat i))"

text \<open>
  \<^verbatim>\<open>crypto.getRandomValues(new Uint32Array(1))\<close>: the next 32-bit value of the
  environment.
\<close>

definition getRandomValues :: "env \<Rightarrow> state \<Rightarrow> 32 word \<times> state" where
  "getRandomValues e st = (rng e (drawn st), st\<lparr>drawn := Suc (drawn st)\<rparr>)"

definition fetch :: "env \<Rightarrow> string \<Rightarrow> state \<Rightarrow> response \<times> state" where
  "fetch e url st = (registry e (length (fetched st)) url, st\<lparr>fetched := fetched st @ [url]\<rparr>)"

text \<open>
  \<^verbatim>\<open>randomBuffer[0] / (0xffffffff + 1)\<close>. The source computes in IEEE doubles. A
  32-bit value divided by \<open>2^32\<close> is exact in a double, and so is its product with an
  integer below \<open>2^21\<close> (the product of the numerators is below \<open>2^53\<close>); the two scale
  factors of the source, 1900001 and at most 2999, are below \<open>2^21\<close>. The rational numbers
  of the model are therefore the values the doubles hold.
\<close>

definition randomValue :: "32 word \<Rightarrow> rat" where
  "randomValue r = of_int (uint r) / (0xffffffff + 1)"

definition minId :: int where "minId = 700000"
definition maxId :: int where "maxId = 2600000"

definition randomId :: "32 word \<Rightarrow> int" where
  "randomId r = \<lfloor>randomValue r * of_int (maxId - minId + 1)\<rfloor> + minId"

definition generateRandomAwardId :: "env \<Rightarrow> state \<Rightarrow> string \<times> state" where
  "generateRandomAwardId e st =
     (let (r, st1) = getRandomValues e st in (intToString (randomId r), st1))"

definition firstAward :: "response \<Rightarrow> NSFAward option" where
  "firstAward resp =
     (case resp of
        Failed \<Rightarrow> None
      | Json n aw \<Rightarrow> (if length aw > 0 then Some (aw ! 0) else None))"

definition idUrl :: "string \<Rightarrow> string" where
  "idUrl i = NSF_API_BASE @ ''/awards.json?id='' @ i @ ''&printFields='' @ PRINT_FIELDS"

definition fetchAwardById :: "env \<Rightarrow> string \<Rightarrow> state \<Rightarrow> NSFAward option \<times> state" where
  "fetchAwardById e i st = (let (resp, st1) = fetch e (idUrl i) st in (firstAward resp, st1))"

text \<open>
  \<^verbatim>\<open>minAmount ? ... : ""\<close> and \<^verbatim>\<open>minAmount && minAmount > 0\<close>: an absent amount
  and the amount 0 are falsy. The callers pass \<^verbatim>\<open>parseInt(..., 10)\<close> or nothing, so the
  amount is an integer or absent (\<^verbatim>\<open>NaN\<close> is falsy as well and behaves as absent).
  \<open>amountFilter\<close> prints the amount in decimal digits, as JavaScript prints an integer
  below \<open>10^21\<close>; from there on JavaScript switches to exponent notation, which the model
  does not follow. Only the text of the URL depends on it.
\<close>

definition truthyAmount :: "int option \<Rightarrow> bool" where
  "truthyAmount m = (case m of None \<Rightarrow> False | Some a \<Rightarrow> a \<noteq> 0)"

definition amountFilter :: "int option \<Rightarrow> string" where
  "amountFilter m =
     (case m of
        None \<Rightarrow> ''''
      | Some a \<Rightarrow> (if a \<noteq> 0 then ''&estimatedTotalAmtFrom='' @ intToString a else ''''))"

definition statusFilter :: "status \<Rightarrow> string" where
  "statusFilter s = (if s = Active then ''&activeAwards=true'' else ''&expiredAwards=true'')"

definition countUrl :: "int option \<Rightarrow> status \<Rightarrow> string" where
  "countUrl m s = NSF_API_BASE @ ''/awards.json?rpp=1'' @ amountFilter m @ statusFilter s"

definition randomOffset :: "32 word \<Rightarrow> nat \<Rightarrow> int" where
  "randomOffset r totalCount = \<lfloor>randomValue r * of_int (int totalCount - 1)\<rfloor>"

definition offsetUrl :: "int \<Rightarrow> int option \<Rightarrow> status \<Rightarrow> string" where
  "offsetUrl off m s =
     NSF_API_BASE @ ''/awards.json?rpp=1&offset='' @ intToString off @ amountFilter m
       @ statusFilter s @ ''&printFields='' @ PRINT_FIELDS"

definition getRandomGrantByOffset ::
    "env \<Rightarrow> int option \<Rightarrow> status \<Rightarrow> state \<Rightarrow> NSFAward option \<times> state" where
  "getRandomGrantByOffset e m s st =
     (let (countResponse, st1) = fetch e (countUrl m s) st in
      case countResponse of
        Failed \<Rightarrow> (None, st1)
      | Json cnt aw0 \<Rightarrow>
          (let totalCount = min cnt 3000 in
           if totalCount = 0 then (None, st1)
           else
             (let (r, st2) = getRandomValues e st1;
                  (resp, st3) = fetch e (offsetUrl (randomOffset r totalCount) m s) st2
              in (firstAward resp, st3))))"

definition maxAttempts :: nat where "maxAttempts = 20"

definition acceptable :: "NSFAward option \<Rightarrow> bool" where
  "acceptable award =
     (case award of
        None \<Rightarrow> False
      | Some a \<Rightarrow> (case abstractText a of None \<Rightarrow> False | Some t \<Rightarrow> t \<noteq> [] \<and> length t > 100))"

text \<open>
  The \<^verbatim>\<open>for\<close> loop of \<^verbatim>\<open>getRandomGrant\<close>, from attempt number \<open>attempt\<close> on. The
  result \<open>Some a\<close> is the early \<^verbatim>\<open>return award\<close>; \<open>None\<close> means the loop ran to its end.
\<close>

function attempts :: "env \<Rightarrow> nat \<Rightarrow> state \<Rightarrow> NSFAward option \<times> state" where
  "attempts e attempt st =
     (if attempt < maxAttempts then
        (let (i, st1) = generateRandomAwardId e st;
             (award, st2) = fetchAwardById e i st1
         in if acceptable award then (award, st2) else attempts e (Suc attempt) st2)
      else (None, st))"
  by pat_completeness auto
termination
  by (relation "measure (\<lambda>(e, attempt, st). maxAttempts - attempt)") auto

definition getRandomGrant ::
    "env \<Rightarrow> int option \<Rightarrow> status \<Rightarrow> state \<Rightarrow> NSFAward option \<times> state" where
  "getRandomGrant e m s st =
     (if (truthyAmount m \<and> the m > 0) \<or> s = Active then getRandomGrantByOffset e m s st
      else
        (case attempts e 0 st of
           (Some a, st1) \<Rightarrow> (Some a, st1)
         | (None, st1) \<Rightarrow> getRandomGrantByOffset e m s st1))"

subsection \<open>The attempts of Strategy A, one by one\<close>

text \<open>
  To speak about single attempts of the loop: from a state \<open>st\<close>, attempt number \<open>j\<close>
  (counted from 0) consumes draw \<open>drawn st + j\<close> and is request number
  \<open>length (fetched st) + j\<close>. \<open>attemptUrl\<close> is the URL it fetches, \<open>attemptAward\<close> the award
  it obtains, and \<open>afterAttempts e st n\<close> the state after \<open>n\<close> attempts. These three follow
  the description of the loop, not its code; \<open>attempts_char\<close> below relates them to the code.
\<close>

definition attemptUrl :: "env \<Rightarrow> state \<Rightarrow> nat \<Rightarrow> string" where
  "attemptUrl e st j = idUrl (intToString (randomId (rng e (drawn st + j))))"

definition attemptAward :: "env \<Rightarrow> state \<Rightarrow> nat \<Rightarrow> NSFAward option" where
  "attemptAward e st j = firstAward (registry e (length (fetched st) + j) (attemptUrl e st j))"

definition afterAttempts :: "env \<Rightarrow> state \<Rightarrow> nat \<Rightarrow> state" where
  "afterAttempts e st n =
     st\<lparr>drawn := drawn st + n, fetched := fetched st @ map (attemptUrl e st) [0..<n]\<rparr>"

text \<open>Registries and a start state for concrete runs.\<close>

definition demoAward :: NSFAward where
  "demoAward = \<lparr>awardId = ''700000'', awardTitle = ''T'', abstractText = Some (replicate 101 CHR ''a'')\<rparr>"

definition demoEnv :: env where
  "demoEnv = \<lparr>rng = (\<lambda>k. 0), registry = (\<lambda>k url. Json 1 [demoAward])\<rparr>"

definition flakyEnv :: env where
  "flakyEnv = \<lparr>rng = (\<lambda>k. 0), registry = (\<lambda>k url. if k < 2 then Failed else Json 1 [demoAward])\<rparr>"

definition emptyEnv :: env where
  "emptyEnv = \<lparr>rng = (\<lambda>k. 0), registry = (\<lambda>k url. Json 0 [])\<rparr>"

definition st0 :: state where
  "st0 = \<lparr>drawn = 0, fetched = []\<rparr>"

definition failingEnv :: env where
  "failingEnv = \<lparr>rng = (\<lambda>k. 0), registry = (\<lambda>k url. Failed)\<rparr>"


section \<open>Citation extractor (parsePublications, src/lib/nsf-api.ts)\<close>

text \<open>
  A JavaScript string is a sequence of UTF-16 code units; the model takes the code units
  0 to 255, the characters of \<open>string\<close>, so \<open>length\<close> is \<^verbatim>\<open>.length\<close>. In that range
  \<^verbatim>\<open>\s\<close> and \<^verbatim>\<open>trim\<close> know the seven white-space characters of \<open>isWhiteSpace\<close>, and
  \<^verbatim>\<open>\d\<close>, \<^verbatim>\<open>[A-Z]\<close>, \<^verbatim>\<open>[a-z]\<close> are the ASCII classes.

  Reading \<^verbatim>\<open>parts[i]\<close> outside the array gives \<^verbatim>\<open>undefined\<close>, and calling a method
  on \<^verbatim>\<open>undefined\<close> throws a TypeError. \<open>partAt\<close> returns \<open>None\<close> for
  \<^verbatim>\<open>undefined\<close>, and every function that calls a method on an array element returns an
  option whose \<open>None\<close> is the thrown TypeError.
\<close>

record Publication =
  year :: string
  authors :: string
  title :: string
  doi :: string
  journal :: string

definition isWhiteSpace :: "char \<Rightarrow> bool" where
  "isWhiteSpace c = (c \<in> set [CHR 0x09, CHR 0x0A, CHR 0x0B, CHR 0x0C, CHR 0x0D, CHR 0x20, CHR 0xA0])"

definition isDigit :: "char \<Rightarrow> bool" where
  "isDigit c = (c \<in> set ''0123456789'')"

definition isUpper :: "char \<Rightarrow> bool" where
  "isUpper c = (c \<in> set ''ABCDEFGHIJKLMNOPQRSTUVWXYZ'')"

definition isLower :: "char \<Rightarrow> bool" where
  "isLower c = (c \<in> set ''abcdefghijklmnopqrstuvwxyz'')"

definition js_trim :: "string \<Rightarrow> string" where
  "js_trim s = rev (dropWhile isWhiteSpace (rev (dropWhile isWhiteSpace s)))"

fun js_split :: "char \<Rightarrow> string \<Rightarrow> string list" where
  "js_split sep [] = [[]]"
| "js_split sep (c # cs) =
     (if c = sep then [] # js_split sep cs
      else (case js_split sep cs of
              [] \<Rightarrow> [[c]]
            | w # ws \<Rightarrow> (c # w) # ws))"

fun startsWith :: "string \<Rightarrow> string \<Rightarrow> bool" where
  "startsWith s [] = True"
| "startsWith [] (p # ps) = False"
| "startsWith (c # cs) (p # ps) = (c = p \<and> startsWith cs ps)"

fun js_includes :: "string \<Rightarrow> string \<Rightarrow> bool" where
  "js_includes [] sub = (sub = [])"
| "js_includes (c # cs) sub = (startsWith (c # cs) sub \<or> js_includes cs sub)"

definition allDigits :: "string \<Rightarrow> bool" where
  "allDigits s = (s \<noteq> [] \<and> list_all isDigit s)"

definition isYear :: "string \<Rightarrow> bool" where
  "isYear s = (length s = 4 \<and> list_all isDigit s)"

definition doiPrefix :: "string \<Rightarrow> bool" where
  "doiPrefix s =
     (startsWith s ''10.'' \<and>
      (let rest = drop 3 s in
       takeWhile isDigit rest \<noteq> [] \<and> startsWith (dropWhile isDigit rest) ''/''))"

definition capitalizedStart :: "string \<Rightarrow> bool" where
  "capitalizedStart s = (case s of a # b # rest \<Rightarrow> isUpper a \<and> isLower b | _ \<Rightarrow> False)"

definition dateShaped :: "string \<Rightarrow> bool" where
  "dateShaped s =
     (10 \<le> length s \<and> list_all isDigit (take 4 s) \<and> s ! 4 = CHR ''-'' \<and>
      list_all isDigit (take 2 (drop 5 s)) \<and> s ! 7 = CHR ''-'' \<and>
      list_all isDigit (take 2 (drop 8 s)))"

definition emailShaped :: "string \<Rightarrow> bool" where
  "emailShaped tok = (CHR ''@'' \<in> set (butlast (tl tok)))"

function removeEmails :: "string \<Rightarrow> string" where
  "removeEmails [] = []"
| "removeEmails (c # cs) =
     (if isWhiteSpace c then
        (let ws = takeWhile isWhiteSpace (c # cs);
             rest = dropWhile isWhiteSpace (c # cs);
             tok = takeWhile (\<lambda>x. \<not> isWhiteSpace x) rest;
             after = dropWhile (\<lambda>x. \<not> isWhiteSpace x) rest
         in if emailShaped tok then removeEmails after else ws @ tok @ removeEmails after)
      else c # removeEmails cs)"
  by pat_completeness auto
termination
  by (relation "measure length")
    (auto simp: less_Suc_eq_le intro: order_trans [OF length_dropWhile_le length_dropWhile_le])

definition partAt :: "string list \<Rightarrow> int \<Rightarrow> string option" where
  "partAt parts i = (if 0 \<le> i \<and> i < int (length parts) then Some (parts ! nat i) else None)"

definition truthy :: "string option \<Rightarrow> bool" where
  "truthy v = (case v of None \<Rightarrow> False | Some s \<Rightarrow> s \<noteq> [])"

definition trimOf :: "string option \<Rightarrow> string option" where
  "trimOf v = map_option js_trim v"

definition includesOf :: "string option \<Rightarrow> string \<Rightarrow> bool option" where
  "includesOf v sub = map_option (\<lambda>s. js_includes s sub) v"

definition trimOrEmpty :: "string option \<Rightarrow> string" where
  "trimOrEmpty v = (case v of None \<Rightarrow> [] | Some s \<Rightarrow> js_trim s)"

definition doiShaped :: "string \<Rightarrow> bool" where
  "doiShaped part = (js_includes part ''doi.org'' \<or> doiPrefix part)"

function doiScan :: "string list \<Rightarrow> int \<Rightarrow> (string \<times> int) option" where
  "doiScan parts i =
     (if i < int (length parts) then
        do {
          part \<leftarrow> trimOf (partAt parts i);
          if doiShaped part
          then Some (if js_includes part ''http'' then part else ''https://doi.org/'' @ part, i)
          else doiScan parts (i + 1)
        }
      else Some ([], - 1))"
  by pat_completeness auto
termination
  by (relation "measure (\<lambda>(parts, i). nat (int (length parts) - i))") auto

function yearScan :: "string list \<Rightarrow> int \<Rightarrow> (string \<times> int) option" where
  "yearScan parts i =
     (if i < min (int (length parts)) 4 then
        do {
          part \<leftarrow> trimOf (partAt parts i);
          if isYear part then Some (part, i) else yearScan parts (i + 1)
        }
      else Some ([], - 1))"
  by pat_completeness auto
termination
  by (relation "measure (\<lambda>(parts, i). nat (int (length parts) - i))") auto

definition titleLike :: "string \<Rightarrow> bool" where
  "titleLike p =
     (length p > 15 \<and> \<not> js_includes p ''doi.org'' \<and> \<not> doiPrefix p \<and> \<not> allDigits p \<and>
      \<not> js_includes p ''OSTI'')"

function titleScan :: "string list \<Rightarrow> int \<Rightarrow> string option" where
  "titleScan parts i =
     (if i < int (length parts) then
        do {
          p \<leftarrow> trimOf (partAt parts i);
          if titleLike p then Some p else titleScan parts (i + 1)
        }
      else Some [])"
  by pat_completeness auto
termination
  by (relation "measure (\<lambda>(parts, i). nat (int (length parts) - i))") auto

definition yearFirst :: "string list \<Rightarrow> string \<Rightarrow> string \<Rightarrow> int \<Rightarrow> Publication option" where
  "yearFirst parts firstPart d doiIndex =
     do {
       a \<leftarrow> (if truthy (partAt parts 1) then trimOf (partAt parts 1) else Some []);
       t \<leftarrow> (if doiIndex \<ge> 0 \<and> truthy (partAt parts (doiIndex + 1)) then trimOf (partAt parts (doiIndex + 1))
             else if truthy (partAt parts 3) then trimOf (partAt parts 3)
             else if truthy (partAt parts 2) then
               do {
                 b \<leftarrow> includesOf (partAt parts 2) ''doi'';
                 if \<not> b then trimOf (partAt parts 2) else Some []
               }
             else Some []);
       Some \<lparr>year = firstPart, authors = a, title = t, doi = d, journal = []\<rparr>
     }"

definition journalFirst ::
    "string list \<Rightarrow> string \<Rightarrow> string \<Rightarrow> string \<Rightarrow> int \<Rightarrow> Publication option" where
  "journalFirst parts firstPart d y yearIndex =
     (if yearIndex \<ge> 0 \<and> truthy (partAt parts (yearIndex + 1)) then
        (let afterYear = trimOrEmpty (partAt parts (yearIndex + 1)) in
         if allDigits afterYear \<and> truthy (partAt parts (yearIndex + 2)) then
           do {
             a \<leftarrow> trimOf (partAt parts (yearIndex + 2));
             t \<leftarrow> titleScan parts (yearIndex + 3);
             Some \<lparr>year = y, authors = a, title = t, doi = d, journal = firstPart\<rparr>
           }
         else
           do {
             t \<leftarrow> titleScan parts (yearIndex + 2);
             Some \<lparr>year = y, authors = afterYear, title = t, doi = d, journal = firstPart\<rparr>
           })
      else Some \<lparr>year = y, authors = [], title = [], doi = d, journal = firstPart\<rparr>)"

definition chooseFields :: "string \<Rightarrow> Publication option" where
  "chooseFields pub =
     (let parts = js_split CHR ''~'' pub in
      do {
        (d, doiIndex) \<leftarrow> doiScan parts 0;
        (y, yearIndex) \<leftarrow> yearScan parts 0;
        let firstPart = trimOrEmpty (partAt parts 0);
        if isYear firstPart then yearFirst parts firstPart d doiIndex
        else journalFirst parts firstPart d y yearIndex
      })"

definition swapCondition :: "Publication \<Rightarrow> bool" where
  "swapCondition p =
     ((title p \<noteq> [] \<and> length (title p) < 80 \<and> js_includes (title p) '' and '' \<and>
       capitalizedStart (title p)) \<and>
      (authors p \<noteq> [] \<and> length (authors p) > 50 \<and> \<not> js_includes (authors p) '' and ''))"

definition swapCorrection :: "Publication \<Rightarrow> Publication" where
  "swapCorrection p = (if swapCondition p then p\<lparr>title := authors p, authors := title p\<rparr> else p)"

definition badTitle :: "string \<Rightarrow> bool" where
  "badTitle t =
     (t \<noteq> [] \<and> (allDigits t \<or> t = ''N'' \<or> t = ''OSTI'' \<or> length t < 10 \<or> dateShaped t))"

definition rejectTitle :: "Publication \<Rightarrow> Publication" where
  "rejectTitle p = (if badTitle (title p) then p\<lparr>title := []\<rparr> else p)"

definition cleanAuthors :: "Publication \<Rightarrow> Publication" where
  "cleanAuthors p =
     (if authors p \<noteq> [] then p\<lparr>authors := js_trim (removeEmails (authors p))\<rparr> else p)"

definition extractPublication :: "string \<Rightarrow> Publication option" where
  "extractPublication pub = map_option (\<lambda>p. cleanAuthors (rejectTitle (swapCorrection p))) (chooseFields pub)"

definition accepted :: "Publication \<Rightarrow> bool" where
  "accepted p = (title p \<noteq> [] \<and> length (title p) > 10)"

definition parsePublications :: "string list \<Rightarrow> Publication list option" where
  "parsePublications publicationStrings =
     map_option (filter accepted) (those (map extractPublication publicationStrings))"

subsection \<open>Example inputs\<close>

definition example5 :: string where
  "example5 = ''2019~Jane Doe and John Smith~10.1000/xyz123~A Study of Something Important~''"

definition example6 :: string where
  "example6 = ''Nature~2021~5~A. Author and B. Author~A Long And Meaningful Title About Research~''"

definition example7 :: string where
  "example7 = ''2019~A Detailed Study of Protein Folding Mechanisms in Cells~10.1000/xyz123~Jane Doe and John Smith''"

definition example7b :: string where
  "example7b = ''2019~2020-01-15 Proceedings of the National Academy of Sciences~10.1000/xyz123~Jane Doe and John Smith jd@x.org''"

definition chosen7b :: Publication where
  "chosen7b = \<lparr>year = ''2019'', authors = ''2020-01-15 Proceedings of the National Academy of Sciences'',
     title = ''Jane Doe and John Smith jd@x.org'', doi = ''https://doi.org/10.1000/xyz123'', journal = []\<rparr>"

definition output7b :: Publication where
  "output7b = \<lparr>year = ''2019'', authors = ''Jane Doe and John Smith'',
     title = [], doi = ''https://doi.org/10.1000/xyz123'', journal = []\<rparr>"

definition example10 :: string where
  "example10 = ''2019~Some Author~doi.org/10.1000/x~A Study of Something Important''"

definition exampleList :: "string list" where
  "exampleList = [example5, ''2019~A~x~ABCDEFGHIJ'', ''N~~~'', example6]"

definition chosen7 :: Publication where
  "chosen7 = \<lparr>year = ''2019'', authors = ''A Detailed Study of Protein Folding Mechanisms in Cells'',
     title = ''Jane Doe and John Smith'', doi = ''https://doi.org/10.1000/xyz123'', journal = []\<rparr>"

definition citation5 :: Publication where
  "citation5 = \<lparr>year = ''2019'', authors = ''Jane Doe and John Smith'',
     title = ''A Study of Something Important'', doi = ''https://doi.org/10.1000/xyz123'',
     journal = []\<rparr>"

definition citation6 :: Publication where
  "citation6 = \<lparr>year = ''2021'', authors = ''A. Author and B. Author'',
     title = ''A Long And Meaningful Title About Research'', doi = [], journal = ''Nature''\<rparr>"

definition tenCharacters :: Publication where
  "tenCharacters = \<lparr>year = ''2019'', authors = ''A'', title = ''ABCDEFGHIJ'', doi = [], journal = []\<rparr>"

definition noise :: Publication where
  "noise = \<lparr>year = [], authors = [], title = [], doi = [], journal = ''N''\<rparr>"


section \<open>Properties of the sampler\<close>

subsection \<open>The uniform mapping\<close>

lemma randomValue_scale:
  "\<lfloor>randomValue r * of_int c\<rfloor> = (uint r * c) div 4294967296"
proof -
  have "randomValue r * of_int c = of_int (uint r * c) / of_int 4294967296"
    by (simp add: randomValue_def)
  then show ?thesis
    by (simp only: floor_divide_of_int_eq)
qed

lemma randomId_div: "randomId r = (uint r * 1900001) div 4294967296 + 700000"
  unfolding randomId_def randomValue_scale by (simp add: minId_def maxId_def)

lemma uint32_bounds: "0 \<le> uint (r :: 32 word) \<and> uint r < 4294967296"
  using uint_lt2p [of r] by simp

lemma randomId_in_range: "minId \<le> randomId r \<and> randomId r \<le> maxId"
proof -
  have "0 \<le> uint r" "uint r < 4294967296" using uint32_bounds [of r] by simp_all
  then have "0 \<le> uint r * 1900001" "uint r * 1900001 < 1900001 * 4294967296"
    by simp_all
  then have "0 \<le> (uint r * 1900001) div 4294967296" "(uint r * 1900001) div 4294967296 < 1900001"
    by (simp_all add: pos_imp_zdiv_nonneg_iff div_less_iff_less_mult)
  then show ?thesis by (simp add: randomId_div minId_def maxId_def)
qed

lemma randomId_attains:
  assumes "minId \<le> k" "k \<le> maxId"
  shows "\<exists>r. randomId r = k"
proof -
  define j where "j = k - 700000"
  have j: "0 \<le> j" "j \<le> 1900000" using assms by (simp_all add: j_def minId_def maxId_def)
  define b where "b = j * 4294967296 + 1900000"
  define x where "x = b div 1900001"
  define m where "m = b mod 1900001"
  have b0: "0 \<le> b" using j by (simp add: b_def)
  have bx: "b = x * 1900001 + m" by (simp add: x_def m_def)
  have m: "0 \<le> m" "m < 1900001" by (simp_all add: m_def)
  have x0: "0 \<le> x" using b0 by (simp add: x_def)
  have "b < 4294967296 * 1900001" using j by (simp add: b_def)
  then have xlt: "x < 4294967296" unfolding x_def by (simp add: div_less_iff_less_mult)
  define d where "d = x * 1900001 - j * 4294967296"
  have d: "0 \<le> d" "d < 4294967296" using bx m by (simp_all add: d_def b_def)
  have "x * 1900001 = d + j * 4294967296" by (simp add: d_def)
  then have "(x * 1900001) div 4294967296 = (d + j * 4294967296) div 4294967296" by simp
  also have "\<dots> = d div 4294967296 + j" by simp
  also have "\<dots> = j" using d by simp
  finally have dv: "(x * 1900001) div 4294967296 = j" .
  have "uint (word_of_int x :: 32 word) = x"
    using x0 xlt by (simp add: uint_word_of_int take_bit_int_eq_self)
  then have "randomId (word_of_int x) = k"
    using dv by (simp add: randomId_div j_def)
  then show ?thesis ..
qed

lemma randomOffset_div: "randomOffset r n = (uint r * (int n - 1)) div 4294967296"
  unfolding randomOffset_def randomValue_scale ..

lemma randomOffset_in_range:
  assumes "1 \<le> n"
  shows "0 \<le> randomOffset r n \<and> randomOffset r n \<le> int n - 1"
proof -
  have u: "0 \<le> uint r" "uint r < 4294967296" using uint32_bounds [of r] by simp_all
  have n: "0 \<le> int n - 1" using assms by simp
  have "0 \<le> uint r * (int n - 1)" using u n by simp
  then have a: "0 \<le> (uint r * (int n - 1)) div 4294967296" by simp
  have "uint r \<le> 4294967296" using u by simp
  then have "uint r * (int n - 1) \<le> 4294967296 * (int n - 1)" using n by (rule mult_right_mono)
  then have "(uint r * (int n - 1)) div 4294967296 \<le> (4294967296 * (int n - 1)) div 4294967296"
    by (rule zdiv_mono1) simp
  then have b: "(uint r * (int n - 1)) div 4294967296 \<le> int n - 1" by simp
  show ?thesis using a b by (simp add: randomOffset_div)
qed

lemma randomOffset_below_last:
  assumes "2 \<le> n"
  shows "randomOffset r n < int n - 1"
proof -
  have u: "0 \<le> uint r" "uint r < 4294967296" using uint32_bounds [of r] by simp_all
  have n: "0 < int n - 1" using assms by simp
  have "uint r * (int n - 1) < 4294967296 * (int n - 1)" using u(2) n by (rule mult_strict_right_mono)
  then have "(uint r * (int n - 1)) div 4294967296 < int n - 1"
    by (simp add: div_less_iff_less_mult mult.commute)
  then show ?thesis by (simp add: randomOffset_div)
qed

subsection \<open>The attempt loop\<close>

lemma one_attempt:
  "generateRandomAwardId e st = (i, st1) \<Longrightarrow> fetchAwardById e i st1 = (award, st2) \<Longrightarrow>
     award = attemptAward e st 0 \<and> st2 = afterAttempts e st (Suc 0)"
  by (auto simp: generateRandomAwardId_def fetchAwardById_def getRandomValues_def fetch_def
      attemptAward_def attemptUrl_def afterAttempts_def Let_def split: prod.splits)

lemma attemptUrl_shift: "attemptUrl e (afterAttempts e st (Suc 0)) j = attemptUrl e st (Suc j)"
  by (simp add: attemptUrl_def afterAttempts_def)

lemma attemptAward_shift: "attemptAward e (afterAttempts e st (Suc 0)) j = attemptAward e st (Suc j)"
  unfolding attemptAward_def attemptUrl_shift by (simp add: afterAttempts_def)

lemma afterAttempts_one:
  "afterAttempts e st (Suc 0) = st\<lparr>drawn := Suc (drawn st), fetched := fetched st @ [attemptUrl e st 0]\<rparr>"
  by (simp add: afterAttempts_def)

lemma afterAttempts_shift:
  "afterAttempts e (afterAttempts e st (Suc 0)) n = afterAttempts e st (Suc n)"
proof -
  have "[0..<Suc n] = 0 # map Suc [0..<n]"
    by (simp add: upt_conv_Cons map_Suc_upt del: upt_Suc)
  then have a: "map (attemptUrl e st) [0..<Suc n] =
      attemptUrl e st 0 # map (\<lambda>j. attemptUrl e st (Suc j)) [0..<n]"
    by (simp add: comp_def del: upt_Suc)
  have b: "map (attemptUrl e (afterAttempts e st (Suc 0))) [0..<n] =
      map (\<lambda>j. attemptUrl e st (Suc j)) [0..<n]"
    by (simp add: attemptUrl_shift)
  have "afterAttempts e (afterAttempts e st (Suc 0)) n =
      (afterAttempts e st (Suc 0))\<lparr>drawn := drawn (afterAttempts e st (Suc 0)) + n,
         fetched := fetched (afterAttempts e st (Suc 0)) @ map (\<lambda>j. attemptUrl e st (Suc j)) [0..<n]\<rparr>"
    unfolding afterAttempts_def [of e "afterAttempts e st (Suc 0)" n] b ..
  also have "\<dots> = afterAttempts e st (Suc n)"
    unfolding afterAttempts_def [of e st "Suc n"] a afterAttempts_one by simp
  finally show ?thesis .
qed

lemma find_map_eq: "find P (map f xs) = map_option f (find (\<lambda>x. P (f x)) xs)"
  by (induction xs) simp_all

lemma find_upt_Suc:
  "find P [0..<Suc n] = (if P 0 then Some 0 else map_option Suc (find (\<lambda>j. P (Suc j)) [0..<n]))"
proof -
  have "[0..<Suc n] = 0 # map Suc [0..<n]"
    by (simp add: upt_conv_Cons map_Suc_upt del: upt_Suc)
  then show ?thesis
    by (simp add: find_map_eq del: upt_Suc)
qed

declare attempts.simps [simp del]

lemma attempts_char:
  "k \<le> maxAttempts \<Longrightarrow>
   attempts e k st =
     (case find (\<lambda>j. acceptable (attemptAward e st j)) [0..<maxAttempts - k] of
        Some j \<Rightarrow> (attemptAward e st j, afterAttempts e st (Suc j))
      | None \<Rightarrow> (None, afterAttempts e st (maxAttempts - k)))"
proof (induction e k st rule: attempts.induct)
  case (1 e attempt st)
  show ?case
  proof (cases "attempt < maxAttempts")
    case False
    with "1.prems" have "maxAttempts - attempt = 0" by simp
    with False show ?thesis
      by (simp add: attempts.simps [of e attempt] afterAttempts_def)
  next
    case True
    obtain i st1 where g: "generateRandomAwardId e st = (i, st1)" by force
    obtain award st2 where f: "fetchAwardById e i st1 = (award, st2)" by force
    from one_attempt [OF g f] have aw: "award = attemptAward e st 0"
      and s2: "st2 = afterAttempts e st (Suc 0)" by simp_all
    from True obtain n where n: "maxAttempts - attempt = Suc n" "maxAttempts - Suc attempt = n"
      by (cases "maxAttempts - attempt") auto
    show ?thesis
    proof (cases "acceptable award")
      case True
      with \<open>attempt < maxAttempts\<close> g f aw s2 n show ?thesis
        by (simp add: attempts.simps [of e attempt] find_upt_Suc del: upt_Suc)
    next
      case False
      from \<open>attempt < maxAttempts\<close> have le: "Suc attempt \<le> maxAttempts" by simp
      have step: "attempts e attempt st = attempts e (Suc attempt) st2"
        using \<open>attempt < maxAttempts\<close> g f False by (simp add: attempts.simps [of e attempt])
      have ih: "attempts e (Suc attempt) st2 =
        (case find (\<lambda>j. acceptable (attemptAward e st2 j)) [0..<n] of
           Some j \<Rightarrow> (attemptAward e st2 j, afterAttempts e st2 (Suc j))
         | None \<Rightarrow> (None, afterAttempts e st2 n))"
        using "1.IH" [OF \<open>attempt < maxAttempts\<close> g [symmetric] refl f [symmetric] refl False le]
        unfolding n(2) .
      show ?thesis
        unfolding step ih n(1) find_upt_Suc
        using False aw
        by (simp add: s2 attemptAward_shift afterAttempts_shift split: option.splits)
    qed
  qed
qed

subsection \<open>Concrete runs\<close>

lemma randomId_zero: "randomId 0 = 700000"
  by (simp add: randomId_div)

lemma randomOffset_one: "randomOffset r (Suc 0) = 0"
  by (simp add: randomOffset_div)

lemma demo_url: "attemptUrl demoEnv st j = idUrl ''700000''"
  by (simp add: attemptUrl_def demoEnv_def randomId_zero intToString_def digitChar_def)

lemma flaky_url: "attemptUrl flakyEnv st j = idUrl ''700000''"
  by (simp add: attemptUrl_def flakyEnv_def randomId_zero intToString_def digitChar_def)

lemma failing_url: "attemptUrl failingEnv st j = idUrl ''700000''"
  by (simp add: attemptUrl_def failingEnv_def randomId_zero intToString_def digitChar_def)

lemma demo_acceptable: "acceptable (Some demoAward)"
  by (simp add: acceptable_def demoAward_def cong: option.case_cong)

lemma acceptable_None: "\<not> acceptable None"
  by (simp add: acceptable_def)

lemma acceptable_Some: "acceptable v \<Longrightarrow> \<exists>a. v = Some a"
  by (cases v) (simp_all add: acceptable_def)

lemma demo_award: "attemptAward demoEnv st0 j = Some demoAward"
  by (simp add: attemptAward_def demoEnv_def firstAward_def)

lemma flaky_award: "attemptAward flakyEnv st0 j = (if j < 2 then None else Some demoAward)"
  by (simp add: attemptAward_def flakyEnv_def st0_def firstAward_def)

lemma failing_award: "attemptAward failingEnv st0 j = None"
  by (simp add: attemptAward_def failingEnv_def firstAward_def)

lemma demo_find: "find (\<lambda>j. acceptable (attemptAward demoEnv st0 j)) [0..<20] = Some 0"
  by (simp add: demo_award demo_acceptable upt_rec)

lemma flaky_find: "find (\<lambda>j. acceptable (attemptAward flakyEnv st0 j)) [0..<20] = Some 2"
  by (simp add: flaky_award demo_acceptable acceptable_None upt_rec)

lemma failing_find: "find (\<lambda>j. acceptable (attemptAward failingEnv st0 j)) [0..<20] = None"
  by (simp add: failing_award acceptable_None find_None_iff)

lemma failing_after:
  "afterAttempts failingEnv st0 20 = \<lparr>drawn = 20, fetched = replicate 20 (idUrl ''700000'')\<rparr>"
proof -
  have "attemptUrl failingEnv st0 = (\<lambda>j. idUrl ''700000'')"
    by (rule ext) (rule failing_url)
  then show ?thesis
    by (simp add: afterAttempts_def st0_def map_replicate_const)
qed

lemma failing_by_offset:
  "getRandomGrantByOffset failingEnv m s st = (None, st\<lparr>fetched := fetched st @ [countUrl m s]\<rparr>)"
  by (simp add: getRandomGrantByOffset_def fetch_def failingEnv_def)

lemma demo_by_offset:
  "getRandomGrantByOffset demoEnv m s st0 =
     (Some demoAward, \<lparr>drawn = 1, fetched = [countUrl m s, offsetUrl 0 m s]\<rparr>)"
  by (simp add: getRandomGrantByOffset_def fetch_def getRandomValues_def demoEnv_def st0_def
      firstAward_def randomOffset_one)

subsection \<open>Which strategy a request gets\<close>

lemma getRandomGrant_filtered:
  "(\<exists>a. m = Some a \<and> 0 < a) \<or> s = Active \<Longrightarrow>
   getRandomGrant e m s st = getRandomGrantByOffset e m s st"
  by (cases m) (auto simp: getRandomGrant_def truthyAmount_def)

lemma getRandomGrant_unfiltered:
  "\<not> ((\<exists>a. m = Some a \<and> 0 < a) \<or> s = Active) \<Longrightarrow>
   getRandomGrant e m s st =
     (case attempts e 0 st of
        (Some a, st1) \<Rightarrow> (Some a, st1)
      | (None, st1) \<Rightarrow> getRandomGrantByOffset e m s st1)"
  by (cases m) (auto simp: getRandomGrant_def truthyAmount_def)

lemma attempts_from_start:
  "attempts e 0 st =
     (case find (\<lambda>j. acceptable (attemptAward e st j)) [0..<20] of
        Some j \<Rightarrow> (attemptAward e st j, afterAttempts e st (Suc j))
      | None \<Rightarrow> (None, afterAttempts e st 20))"
  using attempts_char [of 0 e st] by (simp add: maxAttempts_def cong: option.case_cong)

lemma getRandomGrant_char:
  assumes "\<not> ((\<exists>a. m = Some a \<and> 0 < a) \<or> s = Active)"
  shows "getRandomGrant e m s st =
       (case find (\<lambda>j. acceptable (attemptAward e st j)) [0..<20] of
          Some j \<Rightarrow> (attemptAward e st j, afterAttempts e st (Suc j))
        | None \<Rightarrow> getRandomGrantByOffset e m s (afterAttempts e st 20))"
proof (cases "find (\<lambda>j. acceptable (attemptAward e st j)) [0..<20]")
  case None
  then show ?thesis
    unfolding getRandomGrant_unfiltered [OF assms] attempts_from_start by simp
next
  case (Some j)
  then have "acceptable (attemptAward e st j)" by (auto simp: find_Some_iff)
  then obtain a where "attemptAward e st j = Some a" by (auto dest: acceptable_Some)
  with Some show ?thesis
    unfolding getRandomGrant_unfiltered [OF assms] attempts_from_start by simp
qed

lemma offset_fetches:
  "\<exists>us. fetched (snd (getRandomGrantByOffset e m s st)) = fetched st @ countUrl m s # us \<and>
     (us = [] \<or> (\<exists>off. us = [offsetUrl off m s]))"
  by (auto simp: getRandomGrantByOffset_def fetch_def getRandomValues_def Let_def
      split: response.splits prod.splits)

lemma afterAttempts_Suc_fetched:
  "fetched (afterAttempts e st (Suc n)) =
     fetched st @ attemptUrl e st 0 # map (\<lambda>j. attemptUrl e st (Suc j)) [0..<n]"
proof -
  have "[0..<Suc n] = 0 # map Suc [0..<n]"
    by (simp add: upt_conv_Cons map_Suc_upt del: upt_Suc)
  then show ?thesis
    by (simp add: afterAttempts_def comp_def del: upt_Suc)
qed

lemma countUrl_not_offsetUrl: "countUrl m s \<noteq> offsetUrl off m' s'"
  by (cases m; cases s) (simp_all add: countUrl_def offsetUrl_def amountFilter_def statusFilter_def)

subsection \<open>Statements about the sampler\<close>

text \<open>
  Claim C1 (the part that holds). Every identifier draw lies in \<open>[700000, 2600000]\<close> and
  every identifier of that range is drawn by some 32-bit value; every offset draw for a
  capped count \<open>N \<ge> 1\<close> lies in \<open>[0, N - 1]\<close>. The lemmas are \<open>randomId_in_range\<close>,
  \<open>randomId_attains\<close> and \<open>randomOffset_in_range\<close> above.
\<close>

text \<open>
  Claim C1 (where the code departs from it). The claim wants every offset of
  \<open>[0, N - 1]\<close> to be attainable. The offset draw scales by \<open>totalCount - 1\<close>, where the
  identifier draw scales by the size of its range, so the last offset \<open>N - 1\<close> is never
  drawn when \<open>N \<ge> 2\<close> (\<open>randomOffset_below_last\<close>). At a count of two the draw is 0 for
  every random value: the second of the two records cannot be selected.
\<close>

theorem offset_draw_of_two_is_zero: "randomOffset r 2 = 0"
  using randomOffset_in_range [of 2 r] randomOffset_below_last [of 2 r] by simp

text \<open>
  Claim C2, as stated: a request with a positive minimum amount or with a status
  restriction (active or completed) is served by offset sampling, never by identifier
  guessing. It fails for the status \<open>Completed\<close> without an amount: against a registry that
  answers every request with one good award, the run fetches exactly one URL, the identifier
  lookup of the drawn identifier 700000, and returns its award; offset sampling would have
  fetched the count URL and an offset URL.
\<close>

theorem completed_request_guesses_identifier:
  "getRandomGrant demoEnv None Completed st0 =
     (Some demoAward, \<lparr>drawn = 1, fetched = [idUrl ''700000'']\<rparr>) \<and>
   getRandomGrant demoEnv None Completed st0 \<noteq> getRandomGrantByOffset demoEnv None Completed st0"
proof -
  have h: "\<not> ((\<exists>a. (None :: int option) = Some a \<and> 0 < a) \<or> Completed = Active)"
    by simp
  have "getRandomGrant demoEnv None Completed st0 =
      (attemptAward demoEnv st0 0, afterAttempts demoEnv st0 (Suc 0))"
    using getRandomGrant_char [OF h, of demoEnv st0, unfolded demo_find] by simp
  moreover have "afterAttempts demoEnv st0 (Suc 0) = \<lparr>drawn = 1, fetched = [idUrl ''700000'']\<rparr>"
    by (simp add: afterAttempts_def demo_url st0_def)
  ultimately have run: "getRandomGrant demoEnv None Completed st0 =
      (Some demoAward, \<lparr>drawn = 1, fetched = [idUrl ''700000'']\<rparr>)"
    by (simp add: demo_award)
  then show ?thesis
    by (simp add: demo_by_offset)
qed

text \<open>
  Claim C2, amended. The guard of \<^verbatim>\<open>getRandomGrant\<close> sends a request to offset sampling
  exactly when its minimum amount is positive or its status is \<open>Active\<close>; the result is then
  the result of \<^verbatim>\<open>getRandomGrantByOffset\<close> with the same amount and status. Every
  other request, that is status \<open>Completed\<close> (the default) with no positive amount, starts
  with identifier guessing: the first URL it fetches is the identifier lookup of the first
  drawn identifier.
\<close>

theorem strategy_choice:
  "((\<exists>a. m = Some a \<and> 0 < a) \<or> s = Active \<longrightarrow>
      getRandomGrant e m s st = getRandomGrantByOffset e m s st) \<and>
   (\<not> ((\<exists>a. m = Some a \<and> 0 < a) \<or> s = Active) \<longrightarrow>
      (\<exists>us. fetched (snd (getRandomGrant e m s st)) = fetched st @ attemptUrl e st 0 # us))"
proof (intro conjI impI)
  assume "(\<exists>a. m = Some a \<and> 0 < a) \<or> s = Active"
  then show "getRandomGrant e m s st = getRandomGrantByOffset e m s st"
    by (rule getRandomGrant_filtered)
next
  assume a: "\<not> ((\<exists>a. m = Some a \<and> 0 < a) \<or> s = Active)"
  show "\<exists>us. fetched (snd (getRandomGrant e m s st)) = fetched st @ attemptUrl e st 0 # us"
  proof (cases "find (\<lambda>j. acceptable (attemptAward e st j)) [0..<20]")
    case (Some j)
    then have "getRandomGrant e m s st = (attemptAward e st j, afterAttempts e st (Suc j))"
      unfolding getRandomGrant_char [OF a] by simp
    then show ?thesis
      by (simp add: afterAttempts_Suc_fetched)
  next
    case None
    then have "getRandomGrant e m s st = getRandomGrantByOffset e m s (afterAttempts e st 20)"
      unfolding getRandomGrant_char [OF a] by simp
    moreover obtain vs where
      "fetched (snd (getRandomGrantByOffset e m s (afterAttempts e st 20))) =
         fetched (afterAttempts e st 20) @ countUrl m s # vs"
      using offset_fetches [of e m s "afterAttempts e st 20"] by blast
    moreover have "fetched (afterAttempts e st 20) =
        fetched st @ attemptUrl e st 0 # map (\<lambda>j. attemptUrl e st (Suc j)) [0..<19]"
      using afterAttempts_Suc_fetched [of e st 19] by simp
    ultimately show ?thesis by simp
  qed
qed

theorem strategy_choice_witness:
  "((\<exists>a. Some (5 :: int) = Some a \<and> 0 < a) \<or> Completed = Active) \<and>
   getRandomGrant demoEnv (Some 5) Completed st0 =
     (Some demoAward,
      \<lparr>drawn = 1, fetched = [countUrl (Some 5) Completed, offsetUrl 0 (Some 5) Completed]\<rparr>) \<and>
   \<not> ((\<exists>a. (None :: int option) = Some a \<and> 0 < a) \<or> Completed = Active) \<and>
   (\<exists>us. fetched (snd (getRandomGrant demoEnv None Completed st0)) = idUrl ''700000'' # us)"
proof -
  have h1: "(\<exists>a. Some (5 :: int) = Some a \<and> 0 < a) \<or> Completed = Active" by simp
  have h2: "\<not> ((\<exists>a. (None :: int option) = Some a \<and> 0 < a) \<or> Completed = Active)" by simp
  note t1 = strategy_choice [of "Some 5" Completed demoEnv st0, THEN conjunct1, rule_format, OF h1]
  note t2 = strategy_choice [of None Completed demoEnv st0, THEN conjunct2, rule_format, OF h2]
  from t1 have "getRandomGrant demoEnv (Some 5) Completed st0 =
     (Some demoAward,
      \<lparr>drawn = 1, fetched = [countUrl (Some 5) Completed, offsetUrl 0 (Some 5) Completed]\<rparr>)"
    by (simp add: demo_by_offset)
  moreover from t2 have
    "\<exists>us. fetched (snd (getRandomGrant demoEnv None Completed st0)) = idUrl ''700000'' # us"
    by (simp add: demo_url st0_def)
  ultimately show ?thesis using h1 h2 by blast
qed

text \<open>
  Claim C3. In \<^verbatim>\<open>getRandomGrantByOffset\<close>, when the count query reports a total count of
  0 the result is \<^verbatim>\<open>null\<close>, no random value is drawn, and the only request issued is the
  count query, which is not an offset-indexed lookup.
\<close>

theorem zero_count_not_found:
  assumes "registry e (length (fetched st)) (countUrl m s) = Json 0 aw"
  shows "getRandomGrantByOffset e m s st = (None, st\<lparr>fetched := fetched st @ [countUrl m s]\<rparr>) \<and>
     countUrl m s \<noteq> offsetUrl off m' s'"
  using assms by (simp add: getRandomGrantByOffset_def fetch_def countUrl_not_offsetUrl)

theorem zero_count_not_found_witness:
  "registry emptyEnv (length (fetched st0)) (countUrl None Active) = Json 0 [] \<and>
   getRandomGrantByOffset emptyEnv None Active st0 =
     (None, \<lparr>drawn = 0, fetched = [countUrl None Active]\<rparr>)"
proof -
  have h: "registry emptyEnv (length (fetched st0)) (countUrl None Active) = Json 0 []"
    by (simp add: emptyEnv_def)
  from zero_count_not_found [OF h] h show ?thesis
    by (simp add: st0_def)
qed

text \<open>
  Claim C4. For every registry and every random source, a request that takes Strategy A
  makes at most 20 identifier lookups: the loop of \<^verbatim>\<open>getRandomGrant\<close> ends in the state
  reached after \<open>n \<le> 20\<close> attempts. It returns the award of the first attempt whose award
  is acceptable (fetched, with an abstract longer than 100 characters), having made no
  further lookup; when none of the 20 attempts is acceptable it continues with offset
  sampling from the state after the 20 lookups. The loop is a total function: its
  termination is proved with its definition.
\<close>

theorem attempts_budget:
  assumes "\<not> ((\<exists>a. m = Some a \<and> 0 < a) \<or> s = Active)"
  shows "(\<exists>n \<le> 20. snd (attempts e 0 st) = afterAttempts e st n) \<and>
     getRandomGrant e m s st =
       (case find (\<lambda>j. acceptable (attemptAward e st j)) [0..<20] of
          Some j \<Rightarrow> (attemptAward e st j, afterAttempts e st (Suc j))
        | None \<Rightarrow> getRandomGrantByOffset e m s (afterAttempts e st 20))"
proof -
  let ?f = "find (\<lambda>j. acceptable (attemptAward e st j)) [0..<20]"
  have "\<exists>n \<le> 20. snd (attempts e 0 st) = afterAttempts e st n"
  proof (cases ?f)
    case None
    then have "snd (attempts e 0 st) = afterAttempts e st 20"
      unfolding attempts_from_start by simp
    then show ?thesis by blast
  next
    case (Some j)
    then have "j \<in> set [0..<20]" by (auto simp: find_Some_iff)
    then have "Suc j \<le> 20" by simp
    moreover have "snd (attempts e 0 st) = afterAttempts e st (Suc j)"
      using Some unfolding attempts_from_start by simp
    ultimately show ?thesis by blast
  qed
  then show ?thesis
    using getRandomGrant_char [OF assms, of e st] by simp
qed

theorem attempts_budget_witness:
  "\<not> ((\<exists>a. (None :: int option) = Some a \<and> 0 < a) \<or> Completed = Active) \<and>
   getRandomGrant flakyEnv None Completed st0 =
     (Some demoAward,
      \<lparr>drawn = 3, fetched = [idUrl ''700000'', idUrl ''700000'', idUrl ''700000'']\<rparr>) \<and>
   getRandomGrant failingEnv None Completed st0 =
     (None,
      \<lparr>drawn = 20, fetched = replicate 20 (idUrl ''700000'') @ [countUrl None Completed]\<rparr>)"
proof -
  have h: "\<not> ((\<exists>a. (None :: int option) = Some a \<and> 0 < a) \<or> Completed = Active)"
    by simp
  have "getRandomGrant flakyEnv None Completed st0 =
      (attemptAward flakyEnv st0 2, afterAttempts flakyEnv st0 (Suc 2))"
    using attempts_budget [OF h, of flakyEnv st0, unfolded flaky_find] by simp
  moreover have "attemptAward flakyEnv st0 2 = Some demoAward"
    by (simp add: flaky_award)
  moreover have "afterAttempts flakyEnv st0 (Suc 2) =
      \<lparr>drawn = 3, fetched = [idUrl ''700000'', idUrl ''700000'', idUrl ''700000'']\<rparr>"
    by (simp add: afterAttempts_def flaky_url st0_def upt_rec)
  moreover have "getRandomGrant failingEnv None Completed st0 =
      getRandomGrantByOffset failingEnv None Completed (afterAttempts failingEnv st0 20)"
    using attempts_budget [OF h, of failingEnv st0, unfolded failing_find] by simp
  then have "getRandomGrant failingEnv None Completed st0 =
     (None,
      \<lparr>drawn = 20, fetched = replicate 20 (idUrl ''700000'') @ [countUrl None Completed]\<rparr>)"
    unfolding failing_after failing_by_offset by simp
  ultimately show ?thesis using h by simp
qed

section \<open>Properties of the citation extractor\<close>

subsection \<open>The extraction never throws\<close>

text \<open>
  The three scans are unfolded by hand, one step at a time.
\<close>

declare doiScan.simps [simp del] yearScan.simps [simp del] titleScan.simps [simp del]

lemma partAt_Some: "0 \<le> i \<Longrightarrow> i < int (length parts) \<Longrightarrow> partAt parts i = Some (parts ! nat i)"
  by (simp add: partAt_def)

lemma truthy_Some: "truthy v \<Longrightarrow> \<exists>s. v = Some s"
  by (cases v) (simp_all add: truthy_def)

lemma trimOf_truthy: "truthy v \<Longrightarrow> \<exists>t. trimOf v = Some t"
  by (auto simp: trimOf_def dest: truthy_Some)

lemma includesOf_truthy: "truthy v \<Longrightarrow> \<exists>b. includesOf v sub = Some b"
  by (auto simp: includesOf_def dest: truthy_Some)

lemma doiScan_total: "0 \<le> i \<Longrightarrow> \<exists>r. doiScan parts i = Some r"
proof (induction parts i rule: doiScan.induct)
  case (1 parts i)
  show ?case
  proof (cases "i < int (length parts)")
    case False
    then show ?thesis by (simp add: doiScan.simps [of parts i])
  next
    case True
    with "1.prems" have p: "trimOf (partAt parts i) = Some (js_trim (parts ! nat i))"
      by (simp add: trimOf_def partAt_Some)
    show ?thesis
    proof (cases "doiShaped (js_trim (parts ! nat i))")
      case True
      with \<open>i < int (length parts)\<close> p show ?thesis
        by (simp add: doiScan.simps [of parts i])
    next
      case False
      from "1.prems" have "0 \<le> i + 1" by simp
      from "1.IH" [OF True _ False this] p
      have "\<exists>r. doiScan parts (i + 1) = Some r" by simp
      with True p False show ?thesis
        by (simp add: doiScan.simps [of parts i])
    qed
  qed
qed

lemma yearScan_total: "0 \<le> i \<Longrightarrow> \<exists>r. yearScan parts i = Some r"
proof (induction parts i rule: yearScan.induct)
  case (1 parts i)
  show ?case
  proof (cases "i < min (int (length parts)) 4")
    case False
    then show ?thesis by (auto simp: yearScan.simps [of parts i])
  next
    case True
    with "1.prems" have p: "trimOf (partAt parts i) = Some (js_trim (parts ! nat i))"
      by (simp add: trimOf_def partAt_Some)
    show ?thesis
    proof (cases "isYear (js_trim (parts ! nat i))")
      case True
      with \<open>i < min (int (length parts)) 4\<close> p show ?thesis
        by (simp add: yearScan.simps [of parts i])
    next
      case False
      from "1.prems" have "0 \<le> i + 1" by simp
      from "1.IH" [OF True _ False this] p
      have "\<exists>r. yearScan parts (i + 1) = Some r" by simp
      with True p False show ?thesis
        by (simp add: yearScan.simps [of parts i])
    qed
  qed
qed

lemma titleScan_total: "0 \<le> i \<Longrightarrow> \<exists>r. titleScan parts i = Some r"
proof (induction parts i rule: titleScan.induct)
  case (1 parts i)
  show ?case
  proof (cases "i < int (length parts)")
    case False
    then show ?thesis by (simp add: titleScan.simps [of parts i])
  next
    case True
    with "1.prems" have p: "trimOf (partAt parts i) = Some (js_trim (parts ! nat i))"
      by (simp add: trimOf_def partAt_Some)
    show ?thesis
    proof (cases "titleLike (js_trim (parts ! nat i))")
      case True
      with \<open>i < int (length parts)\<close> p show ?thesis
        by (simp add: titleScan.simps [of parts i])
    next
      case False
      from "1.prems" have "0 \<le> i + 1" by simp
      from "1.IH" [OF True _ False this] p
      have "\<exists>r. titleScan parts (i + 1) = Some r" by simp
      with True p False show ?thesis
        by (simp add: titleScan.simps [of parts i])
    qed
  qed
qed

lemma yearFirst_total: "\<exists>p. yearFirst parts f d k = Some p"
proof -
  have a: "\<exists>a. (if truthy (partAt parts 1) then trimOf (partAt parts 1) else Some []) = Some a"
    by (auto dest: trimOf_truthy)
  have t: "\<exists>t. (if k \<ge> 0 \<and> truthy (partAt parts (k + 1)) then trimOf (partAt parts (k + 1))
             else if truthy (partAt parts 3) then trimOf (partAt parts 3)
             else if truthy (partAt parts 2) then
               do {
                 b \<leftarrow> includesOf (partAt parts 2) ''doi'';
                 if \<not> b then trimOf (partAt parts 2) else Some []
               }
             else Some []) = Some t"
  proof (cases "truthy (partAt parts 2)")
    case True
    then obtain b t2 where "includesOf (partAt parts 2) ''doi'' = Some b"
      "trimOf (partAt parts 2) = Some t2"
      using includesOf_truthy trimOf_truthy by blast
    then show ?thesis by (auto dest: trimOf_truthy)
  next
    case False
    then show ?thesis by (auto dest: trimOf_truthy)
  qed
  from a t show ?thesis
    unfolding yearFirst_def by (elim exE) simp
qed

lemma journalFirst_total: "\<exists>p. journalFirst parts f d y k = Some p"
proof (cases "k \<ge> 0 \<and> truthy (partAt parts (k + 1))")
  case False
  then show ?thesis by (auto simp: journalFirst_def)
next
  case True
  then have "0 \<le> k + 2" "0 \<le> k + 3" by simp_all
  then obtain t2 t3 where t: "titleScan parts (k + 2) = Some t2" "titleScan parts (k + 3) = Some t3"
    using titleScan_total by blast
  show ?thesis
  proof (cases "allDigits (trimOrEmpty (partAt parts (k + 1))) \<and> truthy (partAt parts (k + 2))")
    case True
    then obtain a where "trimOf (partAt parts (k + 2)) = Some a"
      using trimOf_truthy by blast
    with True \<open>k \<ge> 0 \<and> truthy (partAt parts (k + 1))\<close> t show ?thesis
      by (simp add: journalFirst_def)
  next
    case False
    with \<open>k \<ge> 0 \<and> truthy (partAt parts (k + 1))\<close> t show ?thesis
      by (auto simp: journalFirst_def Let_def)
  qed
qed

lemma chooseFields_total: "\<exists>p. chooseFields pub = Some p"
proof -
  let ?parts = "js_split CHR ''~'' pub"
  obtain d k where d: "doiScan ?parts 0 = Some (d, k)"
    using doiScan_total [of 0 ?parts] by auto
  obtain y j where y: "yearScan ?parts 0 = Some (y, j)"
    using yearScan_total [of 0 ?parts] by auto
  show ?thesis
    using d y yearFirst_total journalFirst_total
    by (simp add: chooseFields_def Let_def)
qed

lemma extractPublication_total: "\<exists>c. extractPublication pub = Some c"
  using chooseFields_total [of pub] by (auto simp: extractPublication_def)

lemma those_map_total:
  assumes "\<And>x. \<exists>y. f x = Some y"
  shows "\<exists>cs. those (map f xs) = Some cs \<and> list_all2 (\<lambda>x c. f x = Some c) xs cs"
proof (induction xs)
  case Nil
  show ?case by simp
next
  case (Cons x xs)
  then obtain cs where cs: "those (map f xs) = Some cs" "list_all2 (\<lambda>x c. f x = Some c) xs cs"
    by blast
  from assms obtain y where y: "f x = Some y" by blast
  from cs y show ?case by simp
qed

subsection \<open>trim and the email pattern\<close>

lemma dropWhile_id: "xs = [] \<or> \<not> P (hd xs) \<Longrightarrow> dropWhile P xs = xs"
  by (cases xs) auto

lemma js_trim_idem: "js_trim (js_trim s) = js_trim s"
proof -
  let ?W = isWhiteSpace
  define a where "a = dropWhile ?W s"
  define b where "b = dropWhile ?W (rev a)"
  have t: "js_trim s = rev b" by (simp add: js_trim_def a_def b_def)
  have "rev a = takeWhile ?W (rev a) @ b" by (simp add: b_def)
  then have "rev (rev a) = rev (takeWhile ?W (rev a) @ b)" by (rule arg_cong)
  then obtain u where au: "a = rev b @ u" by simp
  have hd: "a = [] \<or> \<not> ?W (hd a)"
    unfolding a_def using hd_dropWhile [of ?W s] by blast
  have "rev b = [] \<or> \<not> ?W (hd (rev b))"
  proof (cases "rev b")
    case Nil
    then show ?thesis by simp
  next
    case (Cons x xs)
    with au have "a = x # xs @ u" by simp
    then have "a \<noteq> []" "hd a = x" by simp_all
    with hd Cons show ?thesis by simp
  qed
  then have 1: "dropWhile ?W (rev b) = rev b" by (rule dropWhile_id)
  have 2: "dropWhile ?W b = b" by (simp add: b_def)
  show ?thesis unfolding t by (simp add: js_trim_def 1 2)
qed

lemma removeEmails_no_at: "CHR ''@'' \<notin> set s \<Longrightarrow> removeEmails s = s"
proof (induction s rule: removeEmails.induct)
  case 1
  show ?case by simp
next
  case (2 c cs)
  show ?case
  proof (cases "isWhiteSpace c")
    case False
    with 2 show ?thesis by simp
  next
    case True
    define rest where "rest = dropWhile isWhiteSpace (c # cs)"
    define tok where "tok = takeWhile (\<lambda>x. \<not> isWhiteSpace x) rest"
    define after where "after = dropWhile (\<lambda>x. \<not> isWhiteSpace x) rest"
    have sub: "set rest \<subseteq> set (c # cs)" unfolding rest_def by (auto dest: set_dropWhileD)
    have "set tok \<subseteq> set rest" unfolding tok_def by (auto dest: set_takeWhileD)
    with sub "2.prems" have nt: "CHR ''@'' \<notin> set tok" by blast
    have "set (butlast (tl tok)) \<subseteq> set tok"
      by (cases tok) (auto dest: in_set_butlastD)
    with nt have ne: "\<not> emailShaped tok" by (auto simp: emailShaped_def)
    have "set after \<subseteq> set rest" unfolding after_def by (auto dest: set_dropWhileD)
    with sub "2.prems" have na: "CHR ''@'' \<notin> set after" by blast
    have ih: "removeEmails after = after"
      using "2.IH"(2) [OF True refl rest_def [symmetric, THEN sym] tok_def after_def ne na]
      by simp
    have ta: "tok @ after = rest"
      by (simp add: tok_def after_def)
    have "removeEmails (c # cs) = takeWhile isWhiteSpace (c # cs) @ tok @ removeEmails after"
      using True ne by (simp add: Let_def rest_def tok_def after_def)
    then have "removeEmails (c # cs) = takeWhile isWhiteSpace (c # cs) @ (tok @ after)"
      by (simp only: ih)
    then have "removeEmails (c # cs) = takeWhile isWhiteSpace (c # cs) @ rest"
      by (simp only: ta)
    then show ?thesis
      by (simp only: rest_def takeWhile_dropWhile_id)
  qed
qed

subsection \<open>What the stages keep\<close>

lemma js_trim_Nil: "js_trim [] = []"
  by (simp add: js_trim_def)

lemma trimOf_trimmed: "trimOf v = Some t \<Longrightarrow> js_trim t = t"
  by (cases v) (auto simp: trimOf_def js_trim_idem)

lemma titleScan_trimmed: "titleScan parts i = Some t \<Longrightarrow> js_trim t = t"
proof (induction parts i rule: titleScan.induct)
  case (1 parts i)
  show ?case
  proof (cases "i < int (length parts)")
    case False
    with "1.prems" show ?thesis
      by (simp add: titleScan.simps [of parts i] js_trim_Nil)
  next
    case True
    show ?thesis
    proof (cases "trimOf (partAt parts i)")
      case None
      with True "1.prems" show ?thesis
        by (simp add: titleScan.simps [of parts i])
    next
      case (Some p)
      show ?thesis
      proof (cases "titleLike p")
        case True
        with \<open>i < int (length parts)\<close> Some "1.prems" have "t = p"
          by (simp add: titleScan.simps [of parts i])
        with Some show ?thesis by (simp add: trimOf_trimmed)
      next
        case False
        with True Some "1.prems" have "titleScan parts (i + 1) = Some t"
          by (simp add: titleScan.simps [of parts i])
        with "1.IH" [OF True _ False] Some show ?thesis by simp
      qed
    qed
  qed
qed

lemma yearFirst_fields:
  assumes "yearFirst parts f d k = Some p"
  shows "doi p = d \<and> js_trim (title p) = title p"
  using assms
  by (auto simp: yearFirst_def js_trim_Nil split: bind_splits if_splits dest: trimOf_trimmed)

lemma journalFirst_fields:
  assumes "journalFirst parts f d y k = Some p"
  shows "doi p = d \<and> js_trim (title p) = title p"
  using assms
  by (auto simp: journalFirst_def Let_def js_trim_Nil split: bind_splits if_splits
      dest: titleScan_trimmed)

lemma chooseFields_fields:
  assumes "chooseFields raw = Some p"
  shows "(\<exists>k. doiScan (js_split CHR ''~'' raw) 0 = Some (doi p, k)) \<and> js_trim (title p) = title p"
  using assms
  by (auto simp: chooseFields_def Let_def split: bind_splits if_splits prod.splits
      dest: yearFirst_fields journalFirst_fields)

lemma doiScan_find:
  "0 \<le> i \<Longrightarrow>
   \<exists>k. doiScan parts i =
     Some (case find doiShaped (map js_trim (drop (nat i) parts)) of
             None \<Rightarrow> []
           | Some part \<Rightarrow> (if js_includes part ''http'' then part else ''https://doi.org/'' @ part),
           k)"
proof (induction parts i rule: doiScan.induct)
  case (1 parts i)
  show ?case
  proof (cases "i < int (length parts)")
    case False
    with "1.prems" have "drop (nat i) parts = []" by simp
    with False show ?thesis by (simp add: doiScan.simps [of parts i])
  next
    case True
    with "1.prems" have p: "trimOf (partAt parts i) = Some (js_trim (parts ! nat i))"
      by (simp add: trimOf_def partAt_Some)
    from True "1.prems" have "nat i < length parts" by simp
    then have d: "drop (nat i) parts = parts ! nat i # drop (Suc (nat i)) parts"
      by (simp add: Cons_nth_drop_Suc)
    from "1.prems" have n: "nat (i + 1) = Suc (nat i)" by simp
    show ?thesis
    proof (cases "doiShaped (js_trim (parts ! nat i))")
      case True
      with \<open>i < int (length parts)\<close> p d show ?thesis
        by (simp add: doiScan.simps [of parts i])
    next
      case False
      from "1.prems" have "0 \<le> i + 1" by simp
      from "1.IH" [OF True _ False this] p
      obtain k where "doiScan parts (i + 1) =
        Some (case find doiShaped (map js_trim (drop (nat (i + 1)) parts)) of
                None \<Rightarrow> []
              | Some part \<Rightarrow> (if js_includes part ''http'' then part else ''https://doi.org/'' @ part),
              k)" by auto
      with True p False d n show ?thesis
        by (simp add: doiScan.simps [of parts i])
    qed
  qed
qed

lemma extractPublication_Some:
  "extractPublication raw = Some c \<longleftrightarrow>
     (\<exists>p. chooseFields raw = Some p \<and> c = cleanAuthors (rejectTitle (swapCorrection p)))"
  by (auto simp: extractPublication_def)

lemma doi_kept: "doi (cleanAuthors (rejectTitle (swapCorrection p))) = doi p"
  by (simp add: cleanAuthors_def rejectTitle_def swapCorrection_def)

lemma doi_char:
  "\<exists>c. extractPublication raw = Some c \<and>
     doi c = (case find doiShaped (map js_trim (js_split CHR ''~'' raw)) of
                None \<Rightarrow> []
              | Some part \<Rightarrow> (if js_includes part ''http'' then part else ''https://doi.org/'' @ part))"
proof -
  obtain p where p: "chooseFields raw = Some p" using chooseFields_total by blast
  then obtain k where "doiScan (js_split CHR ''~'' raw) 0 = Some (doi p, k)"
    using chooseFields_fields by blast
  moreover obtain k' where "doiScan (js_split CHR ''~'' raw) 0 =
     Some (case find doiShaped (map js_trim (drop (nat 0) (js_split CHR ''~'' raw))) of
             None \<Rightarrow> []
           | Some part \<Rightarrow> (if js_includes part ''http'' then part else ''https://doi.org/'' @ part),
           k')"
    using doiScan_find [of 0 "js_split CHR ''~'' raw"] by blast
  ultimately have "doi p = (case find doiShaped (map js_trim (js_split CHR ''~'' raw)) of
                None \<Rightarrow> []
              | Some part \<Rightarrow> (if js_includes part ''http'' then part else ''https://doi.org/'' @ part))"
    by simp
  with p show ?thesis
    by (simp add: extractPublication_Some doi_kept)
qed

lemma swapped_general:
  assumes "chooseFields raw = Some p" "swapCondition p"
  shows "extractPublication raw =
           Some (cleanAuthors (rejectTitle (p\<lparr>title := authors p, authors := title p\<rparr>)))"
  using assms by (simp add: extractPublication_def swapCorrection_def)

lemma swapped_exact:
  assumes c: "chooseFields raw = Some p" and s: "swapCondition p"
    and nd: "\<not> allDigits (authors p)" "\<not> dateShaped (authors p)"
    and na: "CHR ''@'' \<notin> set (title p)"
  shows "extractPublication raw = Some (p\<lparr>title := authors p, authors := title p\<rparr>)"
proof -
  let ?q = "p\<lparr>title := authors p, authors := title p\<rparr>"
  from s have len: "50 < length (authors p)" and tne: "title p \<noteq> []"
    by (simp_all add: swapCondition_def)
  from len have "authors p \<noteq> ''N''" "authors p \<noteq> ''OSTI''" by auto
  with len nd have "\<not> badTitle (title ?q)" by (simp add: badTitle_def)
  then have r: "rejectTitle ?q = ?q" by (simp add: rejectTitle_def)
  from c have "js_trim (title p) = title p" using chooseFields_fields by blast
  with na have "js_trim (removeEmails (title p)) = title p" by (simp add: removeEmails_no_at)
  then have "cleanAuthors ?q = ?q" by (simp add: cleanAuthors_def)
  with r show ?thesis unfolding swapped_general [OF c s] by simp
qed

subsection \<open>The examples of the specification and the general statements\<close>

text \<open>
  Claim C5. The year-first example of the specification: the year is token 0, the authors
  token 1, the bare DOI of token 2 becomes a resolver URL, and the title is the token right
  after the DOI. The journal stays empty and the citation passes the final filter.
\<close>

theorem year_first_example:
  "parsePublications [example5] =
     Some [\<lparr>year = ''2019'', authors = ''Jane Doe and John Smith'',
            title = ''A Study of Something Important'',
            doi = ''https://doi.org/10.1000/xyz123'', journal = []\<rparr>]"
  unfolding example5_def by code_simp

text \<open>
  Claim C6. The journal-first example of the specification: token 0 is the journal, the
  year is found at token 1, the purely numeric token \<open>5\<close> after it is taken for a volume and
  skipped, the authors are the token after the volume, and the title is the first later
  token that is longer than 15 characters and neither DOI-shaped, numeric nor an OSTI token.
\<close>

theorem journal_first_example:
  "parsePublications [example6] =
     Some [\<lparr>year = ''2021'', authors = ''A. Author and B. Author'',
            title = ''A Long And Meaningful Title About Research'',
            doi = [], journal = ''Nature''\<rparr>]"
  unfolding example6_def by code_simp

text \<open>
  Claim C7, as stated: whenever the chosen title and authors satisfy the swap condition, the
  output has the two exchanged. The swap is followed by title rejection and author cleanup,
  and they act on the exchanged fields. In the input below the chosen authors string is
  date-shaped and the chosen title ends in an email address: after the swap the new title is
  blanked and the new authors string loses the address, so neither output field is the
  other chosen field.
\<close>

theorem swap_then_cleanup_counterexample:
  "chooseFields example7b = Some chosen7b \<and> swapCondition chosen7b \<and>
   extractPublication example7b = Some output7b \<and>
   title output7b \<noteq> authors chosen7b \<and> authors output7b \<noteq> title chosen7b"
  unfolding example7b_def chosen7b_def output7b_def by code_simp

text \<open>
  Claim C7, amended. When the chosen title and authors satisfy the swap condition, the
  swap step exchanges them, and the output is the exchanged citation after title rejection
  and author cleanup. The output has exactly the exchanged fields whenever the chosen
  authors string is neither purely numeric nor date-shaped and the chosen title contains no
  \<open>@\<close>. In particular the chosen authors
  \<open>A Detailed Study of Protein Folding Mechanisms in Cells\<close> and title
  \<open>Jane Doe and John Smith\<close> come out exchanged.
\<close>

theorem swap_correction:
  "(chooseFields raw = Some p \<and> swapCondition p \<and> \<not> allDigits (authors p) \<and>
      \<not> dateShaped (authors p) \<and> CHR ''@'' \<notin> set (title p) \<longrightarrow>
      extractPublication raw = Some (p\<lparr>title := authors p, authors := title p\<rparr>)) \<and>
   (chooseFields raw = Some p \<and> swapCondition p \<longrightarrow>
      extractPublication raw =
        Some (cleanAuthors (rejectTitle (p\<lparr>title := authors p, authors := title p\<rparr>)))) \<and>
   chooseFields example7 = Some chosen7 \<and>
   extractPublication example7 =
     Some \<lparr>year = ''2019'', authors = ''Jane Doe and John Smith'',
           title = ''A Detailed Study of Protein Folding Mechanisms in Cells'',
           doi = ''https://doi.org/10.1000/xyz123'', journal = []\<rparr>"
proof -
  have "chooseFields example7 = Some chosen7 \<and>
     extractPublication example7 =
       Some \<lparr>year = ''2019'', authors = ''Jane Doe and John Smith'',
             title = ''A Detailed Study of Protein Folding Mechanisms in Cells'',
             doi = ''https://doi.org/10.1000/xyz123'', journal = []\<rparr>"
    unfolding example7_def chosen7_def by code_simp
  then show ?thesis
    using swapped_exact [of raw p] swapped_general [of raw p] by blast
qed

theorem swap_correction_witness:
  "chooseFields example7 = Some chosen7 \<and> swapCondition chosen7 \<and>
   \<not> allDigits (authors chosen7) \<and> \<not> dateShaped (authors chosen7) \<and>
   CHR ''@'' \<notin> set (title chosen7) \<and>
   extractPublication example7 = Some (chosen7\<lparr>title := authors chosen7, authors := title chosen7\<rparr>)"
proof -
  have h: "chooseFields example7 = Some chosen7 \<and> swapCondition chosen7 \<and>
      \<not> allDigits (authors chosen7) \<and> \<not> dateShaped (authors chosen7) \<and>
      CHR ''@'' \<notin> set (title chosen7)"
    unfolding example7_def chosen7_def by code_simp
  from swap_correction [of example7 chosen7, THEN conjunct1, rule_format, OF h] h
  show ?thesis by blast
qed

text \<open>
  Claim C8. For every list of raw strings, \<^verbatim>\<open>parsePublications\<close> returns the
  extractions of the strings, in input order, with exactly those removed that fail the
  gate: every citation of the output has a non-empty title of more than 10 characters, and
  an extraction whose title has 10 characters or fewer (empty and blanked titles among
  them) is not in the output.
\<close>

theorem accepted_subsequence:
  "\<exists>cs. list_all2 (\<lambda>raw c. extractPublication raw = Some c) publicationStrings cs \<and>
     parsePublications publicationStrings = Some (filter accepted cs) \<and>
     (\<forall>c \<in> set (filter accepted cs). title c \<noteq> [] \<and> 10 < length (title c)) \<and>
     (\<forall>c \<in> set cs. length (title c) \<le> 10 \<longrightarrow> c \<notin> set (filter accepted cs))"
proof -
  obtain cs where cs: "those (map extractPublication publicationStrings) = Some cs"
    "list_all2 (\<lambda>raw c. extractPublication raw = Some c) publicationStrings cs"
    using those_map_total [of extractPublication publicationStrings] extractPublication_total
    by blast
  from cs(1) have "parsePublications publicationStrings = Some (filter accepted cs)"
    by (simp add: parsePublications_def)
  with cs(2) show ?thesis
    by (auto simp: accepted_def)
qed

theorem accepted_subsequence_witness:
  "list_all2 (\<lambda>raw c. extractPublication raw = Some c) exampleList
     [citation5, tenCharacters, noise, citation6] \<and>
   parsePublications exampleList = Some [citation5, citation6] \<and>
   filter accepted [citation5, tenCharacters, noise, citation6] = [citation5, citation6] \<and>
   length (title tenCharacters) = 10"
proof -
  have e: "list_all2 (\<lambda>raw c. extractPublication raw = Some c) exampleList
       [citation5, tenCharacters, noise, citation6] \<and>
     parsePublications exampleList = Some [citation5, citation6] \<and>
     filter accepted [citation5, tenCharacters, noise, citation6] = [citation5, citation6] \<and>
     length (title tenCharacters) = 10"
    unfolding exampleList_def example5_def example6_def citation5_def citation6_def
      tenCharacters_def noise_def
    by code_simp
  from accepted_subsequence [of exampleList] e show ?thesis by blast
qed

text \<open>
  Claim C9, as stated: the extraction performs no out-of-bounds access and raises no
  error. The first half fails. For the raw string \<open>2019\<close> the split has the single token
  \<open>2019\<close>, which is a year, so the year-first branch runs; it reads \<^verbatim>\<open>parts[1]\<close>, and
  then, no identifier being found, \<^verbatim>\<open>parts[3]\<close> and \<^verbatim>\<open>parts[2]\<close>. All three reads
  are past the end of the array and yield \<^verbatim>\<open>undefined\<close>; the extraction still returns
  a citation.
\<close>

theorem reads_past_the_end_counterexample:
  "js_split CHR ''~'' ''2019'' = [''2019''] \<and>
   isYear (trimOrEmpty (partAt (js_split CHR ''~'' ''2019'') 0)) \<and>
   doiScan (js_split CHR ''~'' ''2019'') 0 = Some ([], - 1) \<and>
   partAt (js_split CHR ''~'' ''2019'') 1 = None \<and>
   partAt (js_split CHR ''~'' ''2019'') 3 = None \<and>
   partAt (js_split CHR ''~'' ''2019'') 2 = None \<and>
   extractPublication ''2019'' =
     Some \<lparr>year = ''2019'', authors = [], title = [], doi = [], journal = []\<rparr>"
  by code_simp

text \<open>
  Claim C9, amended. The extraction of one string never throws: for every raw string it
  returns a citation, hence \<^verbatim>\<open>parsePublications\<close> returns a list for every input list.
  Reads past the end of \<^verbatim>\<open>parts\<close> do happen; they yield \<^verbatim>\<open>undefined\<close> and are
  only tested for truthiness: an element that passes the test lies inside the array, and
  the method call that follows it succeeds. The empty string gives the citation with all
  fields empty, and \<open>N~~~\<close> gives a citation with an empty title; the final filter drops
  both instead of reporting an error.
\<close>

theorem extraction_never_fails:
  "(\<exists>c. extractPublication raw = Some c) \<and>
   (\<exists>cs. parsePublications publicationStrings = Some cs) \<and>
   (truthy (partAt parts i) \<longrightarrow>
      0 \<le> i \<and> i < int (length parts) \<and> (\<exists>t. trimOf (partAt parts i) = Some t) \<and>
      (\<exists>b. includesOf (partAt parts i) sub = Some b)) \<and>
   extractPublication [] = Some \<lparr>year = [], authors = [], title = [], doi = [], journal = []\<rparr> \<and>
   extractPublication ''N~~~'' = Some noise \<and>
   parsePublications [[], ''N~~~''] = Some []"
proof -
  have "extractPublication [] =
      Some \<lparr>year = [], authors = [], title = [], doi = [], journal = []\<rparr> \<and>
    extractPublication ''N~~~'' = Some noise \<and>
    parsePublications [[], ''N~~~''] = Some []"
    unfolding noise_def by code_simp
  moreover obtain cs where "those (map extractPublication publicationStrings) = Some cs"
    using those_map_total [of extractPublication publicationStrings] extractPublication_total
    by blast
  then have "\<exists>cs. parsePublications publicationStrings = Some cs"
    by (simp add: parsePublications_def)
  moreover have "truthy (partAt parts i) \<longrightarrow>
      0 \<le> i \<and> i < int (length parts) \<and> (\<exists>t. trimOf (partAt parts i) = Some t) \<and>
      (\<exists>b. includesOf (partAt parts i) sub = Some b)"
  proof
    assume t: "truthy (partAt parts i)"
    then have "partAt parts i \<noteq> None" using truthy_Some [of "partAt parts i"] by auto
    then have "0 \<le> i \<and> i < int (length parts)"
      by (simp add: partAt_def split: if_splits)
    with t show "0 \<le> i \<and> i < int (length parts) \<and> (\<exists>t. trimOf (partAt parts i) = Some t) \<and>
      (\<exists>b. includesOf (partAt parts i) sub = Some b)"
      using trimOf_truthy [of "partAt parts i"] includesOf_truthy [of "partAt parts i" sub]
      by blast
  qed
  ultimately show ?thesis
    using extractPublication_total [of raw] by blast
qed

theorem extraction_never_fails_witness:
  "truthy (partAt [''2019'', ''A''] 1) \<and> (1 :: int) < int (length [''2019'', ''A'']) \<and>
   (\<exists>t. trimOf (partAt [''2019'', ''A''] 1) = Some t)"
proof -
  have h: "truthy (partAt [''2019'', ''A''] 1)"
    by (simp add: truthy_def partAt_def)
  from extraction_never_fails [of _ _ "[''2019'', ''A'']" 1, THEN conjunct2, THEN conjunct2,
      THEN conjunct1, rule_format, OF h] h
  show ?thesis by blast
qed

text \<open>
  Claim C10. The identifier of a citation is decided by the first DOI-shaped token (trimmed):
  a token that contains \<open>http\<close> is kept as it is, any other token gets
  \<open>https://doi.org/\<close> put in front of it unchanged, and without such a token the identifier
  is empty. So a token that names the resolver host without a scheme, \<open>doi.org/10.1000/x\<close>,
  comes out with the host twice.
\<close>

theorem doi_prefix_duplicates_host:
  "(\<exists>c. extractPublication raw = Some c \<and>
      doi c = (case find doiShaped (map js_trim (js_split CHR ''~'' raw)) of
                 None \<Rightarrow> []
               | Some part \<Rightarrow>
                   (if js_includes part ''http'' then part else ''https://doi.org/'' @ part))) \<and>
   extractPublication example10 =
     Some \<lparr>year = ''2019'', authors = ''Some Author'', title = ''A Study of Something Important'',
           doi = ''https://doi.org/doi.org/10.1000/x'', journal = []\<rparr>"
proof -
  have "extractPublication example10 =
     Some \<lparr>year = ''2019'', authors = ''Some Author'', title = ''A Study of Something Important'',
           doi = ''https://doi.org/doi.org/10.1000/x'', journal = []\<rparr>"
    unfolding example10_def by code_simp
  then show ?thesis
    using doi_char [of raw] by blast
qed

end
